theory Spec2Isabelle
  imports Main "HOL-Library.Multiset"
begin

section \<open>scholar.js: fetching and rendering a publication list\<close>

text \<open>
  A shallow embedding of \<^verbatim>\<open>src/scholar.js\<close>: the fetch of the publication list and
  its rendering (lines 12-176 and 228-232). The navigation handlers (lines 180-224) and the
  logging of the error in the \<^verbatim>\<open>catch\<close> clause do not touch the publication list and are
  left out.

  JavaScript strings are modelled as \<open>string\<close>, one \<open>char\<close> per code unit below 256
  (so \<open>CHR 0xA0\<close> is the no-break space). The numbers that the API documents as integers
  (year, citation count, offset) are \<open>int\<close>, which is exact where JavaScript numbers are,
  below \<open>2\<^sup>5\<^sup>3\<close> in absolute value. A field that is absent or \<^verbatim>\<open>null\<close> in the JSON record
  is \<open>None\<close>. The records have the shape that the API documents: a field that is present
  holds a value of its type. The field \<^verbatim>\<open>externalIds\<close> is requested and never read.
\<close>

subsection \<open>Constants (lines 12-14)\<close>

definition GOOGLE_SCHOLAR_URL :: string where
  "GOOGLE_SCHOLAR_URL = ''https://scholar.google.com/citations?user=-qhGYywAAAAJ&hl=en''"

definition RECENT_YEAR_COUNT :: int where
  "RECENT_YEAR_COUNT = 4"

subsection \<open>Publication records\<close>

record author =
  name :: "string option"

record paper =
  title :: "string option"
  year :: "int option"
  venue :: "string option"
  citationCount :: "int option"
  url :: "string option"
  authors :: "author list option"

text \<open>
  The operator \<^verbatim>\<open>x || d\<close> yields \<^verbatim>\<open>d\<close> when \<^verbatim>\<open>x\<close> is falsy: absent, \<^verbatim>\<open>null\<close>,
  the empty string or the number 0. An array is always truthy.
\<close>

definition strOr :: "string option \<Rightarrow> string \<Rightarrow> string" where
  "strOr v d = (case v of None \<Rightarrow> d | Some s \<Rightarrow> if s = [] then d else s)"

definition numOr :: "int option \<Rightarrow> int \<Rightarrow> int" where
  "numOr v d = (case v of None \<Rightarrow> d | Some n \<Rightarrow> if n = 0 then d else n)"

definition arrOr :: "'a list option \<Rightarrow> 'a list \<Rightarrow> 'a list" where
  "arrOr v d = (case v of None \<Rightarrow> d | Some xs \<Rightarrow> xs)"

subsection \<open>The display tree\<close>

text \<open>
  An element carries its tag, its class name and its children. \<open>Markup s\<close> stands for
  the children that the browser builds from the string \<open>s\<close> assigned to
  \<^verbatim>\<open>innerHTML\<close>; \<open>TextNode s\<close> is a text node set through \<^verbatim>\<open>textContent\<close>.
\<close>

datatype node =
    Element string string "node list"
  | TextNode string
  | Markup string

text \<open>
  The page: \<open>None\<close> when the document has no element with id
  \<^verbatim>\<open>publications-list\<close>, otherwise the children of that container.
\<close>

type_synonym page = "node list option"

subsection \<open>escapeHtml (lines 228-232)\<close>

text \<open>
  \<^verbatim>\<open>div.textContent = str; return div.innerHTML\<close> serialises one text node: the
  serialisation replaces \<^verbatim>\<open>&\<close>, the no-break space, \<^verbatim>\<open><\<close> and \<^verbatim>\<open>>\<close>, and nothing
  else (quotes are replaced in attribute values only).
\<close>

definition escapeChar :: "char \<Rightarrow> string" where
  "escapeChar c =
     (if c = CHR ''&'' then ''&amp;''
      else if c = CHR 0xA0 then ''&nbsp;''
      else if c = CHR ''<'' then ''&lt;''
      else if c = CHR ''>'' then ''&gt;''
      else [c])"

definition escapeHtml :: "string \<Rightarrow> string" where
  "escapeHtml str = concat (map escapeChar str)"

subsection \<open>createPaperElement (lines 132-160)\<close>

definition lowerAscii :: "char \<Rightarrow> char" where
  "lowerAscii c =
     (case map_of (zip ''ABCDEFGHIJKLMNOPQRSTUVWXYZ'' ''abcdefghijklmnopqrstuvwxyz'') c of
        Some l \<Rightarrow> l
      | None \<Rightarrow> c)"

fun hasSubstring :: "string \<Rightarrow> string \<Rightarrow> bool" where
  "hasSubstring pat [] = (pat = [])"
| "hasSubstring pat (c # cs) = (take (length pat) (c # cs) = pat \<or> hasSubstring pat cs)"

text \<open>\<^verbatim>\<open>/razaviyayn/i.test(name)\<close>: a case-insensitive search for the surname.\<close>

definition testRazaviyayn :: "string \<Rightarrow> bool" where
  "testRazaviyayn s = hasSubstring ''razaviyayn'' (map lowerAscii s)"

fun join :: "string \<Rightarrow> string list \<Rightarrow> string" where
  "join sep [] = []"
| "join sep [x] = x"
| "join sep (x # y # ys) = x @ sep @ join sep (y # ys)"

definition formatAuthor :: "author \<Rightarrow> string" where
  "formatAuthor a =
     (let nm = escapeHtml (strOr (name a) [])
      in if testRazaviyayn nm then ''<strong>'' @ nm @ ''</strong>'' else nm)"

definition paperTitle :: "paper \<Rightarrow> string" where
  "paperTitle p = escapeHtml (strOr (title p) ''Untitled'')"

definition paperUrl :: "paper \<Rightarrow> string" where
  "paperUrl p = strOr (url p) ''#''"

definition paperVenue :: "paper \<Rightarrow> string" where
  "paperVenue p = escapeHtml (strOr (venue p) [])"

definition paperAuthors :: "paper \<Rightarrow> string" where
  "paperAuthors p = join '', '' (map formatAuthor (arrOr (authors p) []))"

definition paperMarkup :: "paper \<Rightarrow> string" where
  \<open>paperMarkup p =
     ''\<newline>        <div class="pub-main">\<newline>            <a href="'' @ paperUrl p
     @ ''" class="pub-title" target="_blank" rel="noopener">'' @ paperTitle p
     @ ''</a>\<newline>            ''
     @ (if paperAuthors p \<noteq> [] then ''<p class="pub-authors">'' @ paperAuthors p @ ''</p>''
        else [])
     @ ''\<newline>            ''
     @ (if paperVenue p \<noteq> [] then ''<p class="pub-venue">'' @ paperVenue p @ ''</p>''
        else [])
     @ ''\<newline>        </div>\<newline>    ''\<close>

definition createPaperElement :: "paper \<Rightarrow> node" where
  "createPaperElement p = Element ''div'' ''publication-item'' [Markup (paperMarkup p)]"

subsection \<open>Sorting (lines 76-80)\<close>

text \<open>
  The comparator of \<^verbatim>\<open>papers.sort\<close>. \<^verbatim>\<open>Array.prototype.sort\<close> is stable, and for a
  comparator that orders the elements consistently its result is the stable sorted
  arrangement, which the insertion sort below computes: an element goes in front of the
  first later element that it does not have to follow. The sort compares elements at two
  different positions only, never an element with itself.
\<close>

definition comparePapers :: "paper \<Rightarrow> paper \<Rightarrow> int" where
  "comparePapers a b =
     (let yearDiff = numOr (year b) 0 - numOr (year a) 0
      in if yearDiff \<noteq> 0 then yearDiff
         else numOr (citationCount b) 0 - numOr (citationCount a) 0)"

fun insertBy :: "('a \<Rightarrow> 'a \<Rightarrow> int) \<Rightarrow> 'a \<Rightarrow> 'a list \<Rightarrow> 'a list" where
  "insertBy cmp x [] = [x]"
| "insertBy cmp x (y # ys) = (if cmp x y \<le> 0 then x # y # ys else y # insertBy cmp x ys)"

definition sortBy :: "('a \<Rightarrow> 'a \<Rightarrow> int) \<Rightarrow> 'a list \<Rightarrow> 'a list" where
  "sortBy cmp xs = foldr (insertBy cmp) xs []"

subsection \<open>groupByYear (lines 88-96)\<close>

text \<open>
  A property key of \<^verbatim>\<open>grouped\<close> is either the decimal string of a year or the string
  \<^verbatim>\<open>Undated\<close>. The decimal string of an integer determines the integer and
  \<^verbatim>\<open>Number\<close> reads it back, so the key is modelled by the year itself. The object
  is an association list in the order in which its properties were created.
\<close>

datatype yearKey = Year int | Undated

type_synonym grouped = "(yearKey \<times> paper list) list"

definition yearKeyOf :: "paper \<Rightarrow> yearKey" where
  "yearKeyOf p = (case year p of None \<Rightarrow> Undated | Some y \<Rightarrow> if y = 0 then Undated else Year y)"

fun pushPaper :: "yearKey \<Rightarrow> paper \<Rightarrow> grouped \<Rightarrow> grouped" where
  "pushPaper k p [] = [(k, [p])]"
| "pushPaper k p ((k', ps) # g) =
     (if k' = k then (k', ps @ [p]) # g else (k', ps) # pushPaper k p g)"

definition groupByYear :: "paper list \<Rightarrow> grouped" where
  "groupByYear papers = fold (\<lambda>p g. pushPaper (yearKeyOf p) p g) papers []"

definition bucket :: "grouped \<Rightarrow> yearKey \<Rightarrow> paper list" where
  "bucket g k = (case map_of g k of None \<Rightarrow> [] | Some ps \<Rightarrow> ps)"

subsection \<open>renderGroupedPapers (lines 98-130)\<close>

text \<open>
  \<^verbatim>\<open>grouped[year]\<close> in the rendering loop reads a key that \<^verbatim>\<open>Object.keys\<close> has listed,
  so the first case of \<open>bucket\<close> does not occur there.

  \<^verbatim>\<open>Object.keys\<close> lists the keys that are array indices (the integers from 0 to
  \<open>2\<^sup>3\<^sup>2 - 2\<close>) in ascending order, then the other keys in creation order.
  \<open>keyNumber\<close> is \<^verbatim>\<open>Number(key)\<close>; it is applied to numeric keys only (for the undated key
  \<^verbatim>\<open>Number\<close> gives \<^verbatim>\<open>NaN\<close>, which no branch reads). The comparator of the keys returns 1
  on two undated keys; the keys of an object are distinct, so this pair is not compared.
  \<open>numberToString\<close> is the decimal notation that \<^verbatim>\<open>String\<close> gives an integer below
  \<open>10\<^sup>2\<^sup>1\<close> in absolute value.
\<close>

definition isArrayIndex :: "yearKey \<Rightarrow> bool" where
  "isArrayIndex k = (case k of Year y \<Rightarrow> 0 \<le> y \<and> y < 2 ^ 32 - 1 | Undated \<Rightarrow> False)"

definition keyNumber :: "yearKey \<Rightarrow> int" where
  "keyNumber k = (case k of Year y \<Rightarrow> y | Undated \<Rightarrow> 0)"

definition objectKeys :: "grouped \<Rightarrow> yearKey list" where
  "objectKeys g =
     (let ks = map fst g
      in sort_key keyNumber (filter isArrayIndex ks) @ filter (\<lambda>k. \<not> isArrayIndex k) ks)"

definition compareKeys :: "yearKey \<Rightarrow> yearKey \<Rightarrow> int" where
  "compareKeys a b =
     (if a = Undated then 1
      else if b = Undated then - 1
      else keyNumber b - keyNumber a)"

definition sortedYears :: "grouped \<Rightarrow> yearKey list" where
  "sortedYears g = sortBy compareKeys (objectKeys g)"

definition digitChar :: "nat \<Rightarrow> char" where
  "digitChar d = ''0123456789'' ! d"

fun natDigits :: "nat \<Rightarrow> string" where
  "natDigits n = (if n < 10 then [digitChar n] else natDigits (n div 10) @ [digitChar (n mod 10)])"

declare natDigits.simps [simp del]

definition numberToString :: "int \<Rightarrow> string" where
  "numberToString i = (if i < 0 then ''-'' @ natDigits (nat (- i)) else natDigits (nat i))"

definition keyText :: "yearKey \<Rightarrow> string" where
  "keyText k = (case k of Year y \<Rightarrow> numberToString y | Undated \<Rightarrow> ''Undated'')"

definition noResultsMarkup :: string where
  \<open>noResultsMarkup =
     ''<p style="text-align:center; color: var(--text-light); padding: 32px 0;">''
     @ ''No publications found matching your search.</p>''\<close>

definition yearSection :: "grouped \<Rightarrow> yearKey \<Rightarrow> node" where
  "yearSection g k =
     Element ''div'' ''year-group''
       (Element ''h3'' ''year-header'' [TextNode (keyText k)]
        # map createPaperElement (bucket g k))"

definition renderGroupedPapers :: "grouped \<Rightarrow> page \<Rightarrow> page" where
  "renderGroupedPapers g pg =
     (case pg of
        None \<Rightarrow> None
      | Some old \<Rightarrow>
          (let years = sortedYears g
           in if length years = 0 then Some [Markup noResultsMarkup]
              else Some (map (yearSection g) years)))"

subsection \<open>renderPublications (lines 74-86)\<close>

definition renderPublications :: "paper list \<Rightarrow> page \<Rightarrow> page" where
  "renderPublications papers pg =
     renderGroupedPapers (groupByYear (sortBy comparePapers papers)) pg"

subsection \<open>renderError (lines 164-176)\<close>

definition errorMarkup :: string where
  \<open>errorMarkup =
     ''\<newline>            <div class="pub-error">\<newline>                <p>Unable to load publications automatically. Please visit Google Scholar for the full list.</p>\<newline>                <a href="''
     @ GOOGLE_SCHOLAR_URL
     @ ''" target="_blank" rel="noopener" class="btn btn-primary">\<newline>                    View on Google Scholar\<newline>                </a>\<newline>            </div>\<newline>        ''\<close>

definition renderError :: "page \<Rightarrow> page" where
  "renderError pg = (case pg of None \<Rightarrow> None | Some old \<Rightarrow> Some [Markup errorMarkup])"

subsection \<open>The network\<close>

text \<open>
  \<^verbatim>\<open>fetch\<close> either rejects (a network failure) or resolves to a response with a status;
  \<^verbatim>\<open>res.ok\<close> holds for the statuses 200 to 299. A body is \<open>Malformed\<close> when
  reading it throws: \<^verbatim>\<open>res.json()\<close> rejects, or it yields \<^verbatim>\<open>null\<close>, so that the property
  access that follows raises a \<^verbatim>\<open>TypeError\<close>. Otherwise the body is a page object:
  \<^verbatim>\<open>data\<close>, absent or an array of publication records, and the continuation cursor
  \<^verbatim>\<open>next\<close>, absent, an offset (a number) or an opaque string. A body of another shape
  (a \<^verbatim>\<open>data\<close> that is not an array of records) is outside this model.
\<close>

datatype cursor = Offset int | Token string

record apiPage =
  data :: "paper list option"
  nxt :: "cursor option"

datatype body = Malformed | Json apiPage

datatype response = NetworkFailure | Response int body

text \<open>The network answers the \<open>n\<close>-th request of the page load for a URL.\<close>

type_synonym network = "nat \<Rightarrow> string \<Rightarrow> response"

definition ok :: "int \<Rightarrow> bool" where
  "ok status = (200 \<le> status \<and> status \<le> 299)"

definition truthyCursor :: "cursor option \<Rightarrow> bool" where
  "truthyCursor v =
     (case v of None \<Rightarrow> False | Some (Offset n) \<Rightarrow> n \<noteq> 0 | Some (Token s) \<Rightarrow> s \<noteq> [])"

definition cursorText :: "cursor \<Rightarrow> string" where
  "cursorText c = (case c of Offset n \<Rightarrow> numberToString n | Token s \<Rightarrow> s)"

definition SEMANTIC_SCHOLAR_AUTHOR_ID :: string where
  "SEMANTIC_SCHOLAR_AUTHOR_ID = ''1800298''"

definition papersUrl :: string where
  "papersUrl =
     ''https://api.semanticscholar.org/graph/v1/author/'' @ SEMANTIC_SCHOLAR_AUTHOR_ID
     @ ''/papers?fields=title,year,venue,citationCount,url,authors,externalIds&limit=500''"

definition offsetUrl :: "cursor \<Rightarrow> string" where
  "offsetUrl c = papersUrl @ ''&offset='' @ cursorText c"

subsection \<open>fetchRemainingPapers (lines 52-70)\<close>

text \<open>
  The \<^verbatim>\<open>while\<close> loop follows cursors for as long as the server hands them out, so it
  need not end: the result is \<open>None\<close> when it runs forever. \<open>n\<close> counts the requests
  made so far.
\<close>

partial_function (option) fetchLoop ::
  "network \<Rightarrow> nat \<Rightarrow> cursor option \<Rightarrow> paper list \<Rightarrow> paper list option" where
  "fetchLoop net n currentOffset allPapers =
     (case currentOffset of
        None \<Rightarrow> Some allPapers
      | Some c \<Rightarrow>
          if \<not> truthyCursor (Some c) then Some allPapers
          else (case net n (offsetUrl c) of
                  NetworkFailure \<Rightarrow> Some allPapers
                | Response status b \<Rightarrow>
                    if \<not> ok status then Some allPapers
                    else (case b of
                            Malformed \<Rightarrow> Some allPapers
                          | Json d \<Rightarrow>
                              fetchLoop net (Suc n)
                                (if truthyCursor (nxt d) then nxt d else None)
                                (allPapers @ arrOr (data d) []))))"

definition fetchRemainingPapers :: "network \<Rightarrow> nat \<Rightarrow> cursor option \<Rightarrow> paper list option" where
  "fetchRemainingPapers net n offset = fetchLoop net n offset []"

subsection \<open>fetchScholarData (lines 25-50)\<close>

text \<open>
  The exceptions that reach the \<^verbatim>\<open>catch\<close> clause: the rejection of \<^verbatim>\<open>fetch\<close>, the error
  thrown at line 30 with the status, and the exception raised while the body is read.
\<close>

datatype error = FetchRejected | ApiError int | BodyRejected

text \<open>
  Lines 29-39, the requests: \<open>Inl\<close> is the exception that the \<^verbatim>\<open>catch\<close> clause
  receives, \<open>Inr\<close> the list \<^verbatim>\<open>papers\<close> before the filter, and \<open>None\<close> stands for a
  pagination that never ends. The first request is number 0, the follow-up requests
  count from 1.
\<close>

definition fetchPapers :: "network \<Rightarrow> (error + paper list) option" where
  "fetchPapers net =
     (case net 0 papersUrl of
        NetworkFailure \<Rightarrow> Some (Inl FetchRejected)
      | Response status b \<Rightarrow>
          if \<not> ok status then Some (Inl (ApiError status))
          else (case b of
                  Malformed \<Rightarrow> Some (Inl BodyRejected)
                | Json papersData \<Rightarrow>
                    (let papers = arrOr (data papersData) []
                     in if truthyCursor (nxt papersData)
                        then (case fetchRemainingPapers net 1 (nxt papersData) of
                                None \<Rightarrow> None
                              | Some morePapers \<Rightarrow> Some (Inr (papers @ morePapers)))
                        else Some (Inr papers))))"

text \<open>Lines 42-43, the recency filter; \<open>currentYear\<close> is \<^verbatim>\<open>new Date().getFullYear()\<close>.\<close>

definition cutoffYear :: "int \<Rightarrow> int" where
  "cutoffYear currentYear = currentYear - RECENT_YEAR_COUNT + 1"

definition isRecent :: "int \<Rightarrow> paper \<Rightarrow> bool" where
  "isRecent currentYear p =
     (case year p of None \<Rightarrow> False | Some y \<Rightarrow> y \<noteq> 0 \<and> y \<ge> cutoffYear currentYear)"

definition recentPapers :: "int \<Rightarrow> paper list \<Rightarrow> paper list" where
  "recentPapers currentYear papers = filter (isRecent currentYear) papers"

definition fetchScholarData :: "network \<Rightarrow> int \<Rightarrow> page \<Rightarrow> page option" where
  "fetchScholarData net currentYear pg =
     (case fetchPapers net of
        None \<Rightarrow> None
      | Some (Inl e) \<Rightarrow> Some (renderError pg)
      | Some (Inr papers) \<Rightarrow> Some (renderPublications (recentPapers currentYear papers) pg))"

section \<open>Vocabulary of the properties\<close>

text \<open>
  \<open>keyBefore a b\<close>: the bucket \<open>a\<close> has to be shown above the bucket \<open>b\<close>, that is, \<open>a\<close> is a
  numeric year and \<open>b\<close> is either the undated bucket or a smaller year.
\<close>

definition keyBefore :: "yearKey \<Rightarrow> yearKey \<Rightarrow> bool" where
  "keyBefore a b =
     (case a of
        Undated \<Rightarrow> False
      | Year ya \<Rightarrow> (case b of Undated \<Rightarrow> True | Year yb \<Rightarrow> yb < ya))"

text \<open>
  A response is rejected when it arrives with a status outside 200-299 or with a body that
  cannot be read; a request fails when no response arrives or the response is rejected.
\<close>

definition responseRejected :: "response \<Rightarrow> bool" where
  "responseRejected r =
     (case r of NetworkFailure \<Rightarrow> False | Response status b \<Rightarrow> \<not> ok status \<or> b = Malformed)"

definition requestFails :: "response \<Rightarrow> bool" where
  "requestFails r = (r = NetworkFailure \<or> responseRejected r)"

text \<open>
  \<open>pagination net n c ps n' c'\<close>: the follow-up requests numbered \<open>n\<close> to \<open>n' - 1\<close>, the first
  of them for the cursor \<open>c\<close>, are all answered with a page; \<open>ps\<close> are the records of these
  pages in arrival order, and the last page names the cursor \<open>c'\<close>, for which request \<open>n'\<close>
  is due.
\<close>

inductive pagination ::
  "network \<Rightarrow> nat \<Rightarrow> cursor \<Rightarrow> paper list \<Rightarrow> nat \<Rightarrow> cursor \<Rightarrow> bool"
  for net :: network where
  start: "pagination net n c [] n c"
| page: "truthyCursor (Some c) \<Longrightarrow> net n (offsetUrl c) = Response status (Json d) \<Longrightarrow>
         ok status \<Longrightarrow> nxt d = Some c' \<Longrightarrow> pagination net (Suc n) c' ps n' c'' \<Longrightarrow>
         pagination net n c (arrOr (data d) [] @ ps) n' c''"

subsection \<open>Sample inputs\<close>

definition samplePaper :: "string \<Rightarrow> int option \<Rightarrow> int option \<Rightarrow> paper" where
  "samplePaper t y c =
     \<lparr>title = Some t, year = y, venue = None, citationCount = c, url = None, authors = None\<rparr>"

definition sampleList :: "paper list" where
  "sampleList =
     [samplePaper ''old'' (Some 2010) (Some 5), samplePaper ''b'' (Some 2023) None,
      samplePaper ''undated'' None (Some 7), samplePaper ''c'' (Some 2023) (Some 10),
      samplePaper ''zero'' (Some 0) None]"

text \<open>A network on which every request gets the same outcome.\<close>

definition constNetwork :: "response \<Rightarrow> network" where
  "constNetwork r n u = r"

text \<open>A server that holds one page of records and names no cursor.\<close>

definition onePageNetwork :: "paper list \<Rightarrow> network" where
  "onePageNetwork papers n u =
     (if n = 0 \<and> u = papersUrl then Response 200 (Json \<lparr>data = Some papers, nxt = None\<rparr>)
      else NetworkFailure)"

text \<open>
  A server whose first page holds two records and the cursor \<^verbatim>\<open>X\<close>; the request for the
  second page has the outcome \<open>second\<close>.
\<close>

definition twoPageNetwork :: "response \<Rightarrow> network" where
  "twoPageNetwork second n u =
     (if n = 0 \<and> u = papersUrl
      then Response 200
             (Json \<lparr>data = Some [samplePaper ''A'' (Some 2024) (Some 3),
                                  samplePaper ''B'' (Some 2023) None],
                    nxt = Some (Token ''X'')\<rparr>)
      else if n = 1 \<and> u = offsetUrl (Token ''X'') then second
      else NetworkFailure)"

text \<open>
  A server with three pages: two records and the offset 500, one record and the offset
  1000, and a third page whose request has the outcome \<open>third\<close>.
\<close>

definition threePageNetwork :: "response \<Rightarrow> network" where
  "threePageNetwork third n u =
     (if n = 0 \<and> u = papersUrl
      then Response 200
             (Json \<lparr>data = Some [samplePaper ''A'' (Some 2024) (Some 3),
                                  samplePaper ''B'' (Some 2023) None],
                    nxt = Some (Offset 500)\<rparr>)
      else if n = 1 \<and> u = offsetUrl (Offset 500)
      then Response 200
             (Json \<lparr>data = Some [samplePaper ''C'' (Some 2022) (Some 1)],
                    nxt = Some (Offset 1000)\<rparr>)
      else if n = 2 \<and> u = offsetUrl (Offset 1000) then third
      else NetworkFailure)"

section \<open>The sort\<close>

lemma mset_insertBy: "mset (insertBy cmp x xs) = add_mset x (mset xs)"
  by (induction xs) auto

lemma mset_sortBy: "mset (sortBy cmp xs) = mset xs"
  by (induction xs) (auto simp: sortBy_def mset_insertBy)

lemma set_insertBy: "set (insertBy cmp x xs) = insert x (set xs)"
  by (induction xs) auto

lemma set_sortBy: "set (sortBy cmp xs) = set xs"
  by (induction xs) (auto simp: sortBy_def set_insertBy)

lemma length_sortBy: "length (sortBy cmp xs) = length xs"
  using mset_sortBy [of cmp xs] by (metis size_mset)

lemma distinct_sortBy: "distinct (sortBy cmp xs) = distinct xs"
  using mset_sortBy [of cmp xs] by (metis distinct_count_atmost_1 set_sortBy)

lemma comparePapers_trans:
  "comparePapers a b \<le> 0 \<Longrightarrow> comparePapers b c \<le> 0 \<Longrightarrow> comparePapers a c \<le> 0"
  by (auto simp: comparePapers_def Let_def split: if_splits)

lemma comparePapers_total: "\<not> comparePapers a b \<le> 0 \<Longrightarrow> comparePapers b a \<le> 0"
  by (auto simp: comparePapers_def Let_def split: if_splits)

lemma sorted_insertBy_papers:
  "sorted_wrt (\<lambda>a b. comparePapers a b \<le> 0) xs \<Longrightarrow>
   sorted_wrt (\<lambda>a b. comparePapers a b \<le> 0) (insertBy comparePapers x xs)"
proof (induction xs)
  case Nil
  then show ?case by simp
next
  case (Cons y ys)
  show ?case
  proof (cases "comparePapers x y \<le> 0")
    case True
    with Cons.prems show ?thesis
      by (auto intro: comparePapers_trans)
  next
    case False
    then have "comparePapers y x \<le> 0" by (rule comparePapers_total)
    with False Cons show ?thesis
      by (auto simp: set_insertBy)
  qed
qed

lemma sorted_sortBy_papers:
  "sorted_wrt (\<lambda>a b. comparePapers a b \<le> 0) (sortBy comparePapers xs)"
  by (induction xs) (auto simp: sortBy_def sorted_insertBy_papers)

lemma numOr_zero: "numOr v 0 = (case v of None \<Rightarrow> 0 | Some n \<Rightarrow> n)"
  by (simp add: numOr_def split: option.splits)

text \<open>
  Claim C5. The sorted list is a rearrangement of the input. Of two positions of the sorted
  list, the one whose record has the greater year (a missing year counting as 0) comes
  first; when the years are equal, the one with the greater citation count (a missing count
  counting as 0) comes first. Nothing is said about records that agree on both.
\<close>

theorem sort_order:
  "mset (sortBy comparePapers papers) = mset papers \<and>
   (\<forall>i j. i < length papers \<and> j < length papers \<and>
      (case year (sortBy comparePapers papers ! j) of None \<Rightarrow> 0 | Some y \<Rightarrow> y)
        < (case year (sortBy comparePapers papers ! i) of None \<Rightarrow> 0 | Some y \<Rightarrow> y)
      \<longrightarrow> i < j) \<and>
   (\<forall>i j. i < length papers \<and> j < length papers \<and>
      (case year (sortBy comparePapers papers ! j) of None \<Rightarrow> 0 | Some y \<Rightarrow> y)
        = (case year (sortBy comparePapers papers ! i) of None \<Rightarrow> 0 | Some y \<Rightarrow> y) \<and>
      (case citationCount (sortBy comparePapers papers ! j) of None \<Rightarrow> 0 | Some y \<Rightarrow> y)
        < (case citationCount (sortBy comparePapers papers ! i) of None \<Rightarrow> 0 | Some y \<Rightarrow> y)
      \<longrightarrow> i < j)"
proof -
  let ?out = "sortBy comparePapers papers"
  have len: "length ?out = length papers" by (rule length_sortBy)
  have srt: "sorted_wrt (\<lambda>a b. comparePapers a b \<le> 0) ?out" by (rule sorted_sortBy_papers)
  have before: "comparePapers (?out ! j) (?out ! i) \<le> 0"
    if "j < i" "i < length papers" for i j
    using srt that len by (simp add: sorted_wrt_iff_nth_less)
  have self: "comparePapers a a = 0" for a by (simp add: comparePapers_def)
  have le: "comparePapers (?out ! j) (?out ! i) \<le> 0"
    if "\<not> i < j" "i < length papers" for i j
    using before [of j i] self [of "?out ! i"] that by (cases "i = j") auto
  have y: "i < j" if "i < length papers" "j < length papers"
      "numOr (year (?out ! j)) 0 < numOr (year (?out ! i)) 0" for i j
  proof (rule ccontr)
    assume "\<not> i < j"
    then have "comparePapers (?out ! j) (?out ! i) \<le> 0" using that le by blast
    with that(3) show False by (auto simp: comparePapers_def Let_def split: if_splits)
  qed
  have c: "i < j" if "i < length papers" "j < length papers"
      "numOr (year (?out ! j)) 0 = numOr (year (?out ! i)) 0"
      "numOr (citationCount (?out ! j)) 0 < numOr (citationCount (?out ! i)) 0" for i j
  proof (rule ccontr)
    assume "\<not> i < j"
    then have "comparePapers (?out ! j) (?out ! i) \<le> 0" using that le by blast
    with that(3,4) show False by (auto simp: comparePapers_def Let_def split: if_splits)
  qed
  have m: "mset ?out = mset papers" by (rule mset_sortBy)
  show ?thesis
    unfolding numOr_zero [symmetric] using m y c by blast
qed

text \<open>
  Witness for C5: in the sample list the two records of 2023 come first, the one with 10
  citations before the one without a count, then the record of 2010, then the two records
  whose year counts as 0; positions 0 and 2 instantiate the first rule, positions 0 and 1
  the second.
\<close>

theorem sort_order_witness:
  "sortBy comparePapers sampleList
     = [samplePaper ''c'' (Some 2023) (Some 10), samplePaper ''b'' (Some 2023) None,
        samplePaper ''old'' (Some 2010) (Some 5), samplePaper ''undated'' None (Some 7),
        samplePaper ''zero'' (Some 0) None] \<and>
   mset (sortBy comparePapers sampleList) = mset sampleList \<and>
   (0::nat) < length sampleList \<and> (2::nat) < length sampleList \<and>
   (case year (sortBy comparePapers sampleList ! 2) of None \<Rightarrow> 0 | Some y \<Rightarrow> y)
     < (case year (sortBy comparePapers sampleList ! 0) of None \<Rightarrow> 0 | Some y \<Rightarrow> y) \<and>
   (0::nat) < 2 \<and>
   (case citationCount (sortBy comparePapers sampleList ! 1) of None \<Rightarrow> 0 | Some y \<Rightarrow> y)
     < (case citationCount (sortBy comparePapers sampleList ! 0) of None \<Rightarrow> 0 | Some y \<Rightarrow> y) \<and>
   (0::nat) < 1"
proof -
  have s: "sortBy comparePapers sampleList
     = [samplePaper ''c'' (Some 2023) (Some 10), samplePaper ''b'' (Some 2023) None,
        samplePaper ''old'' (Some 2010) (Some 5), samplePaper ''undated'' None (Some 7),
        samplePaper ''zero'' (Some 0) None]"
    by (simp add: sortBy_def comparePapers_def numOr_def samplePaper_def sampleList_def)
  have l: "length sampleList = 5" by (simp add: sampleList_def)
  show ?thesis
    using sort_order [of sampleList] unfolding s l by (simp add: samplePaper_def)
qed

section \<open>Grouping\<close>

lemma keys_pushPaper: "fst ` set (pushPaper k p g) = insert k (fst ` set g)"
proof (induction g)
  case Nil
  then show ?case by simp
next
  case (Cons kv g)
  obtain k0 ps0 where kv: "kv = (k0, ps0)" by (cases kv)
  show ?case
  proof (cases "k0 = k")
    case True
    with kv show ?thesis by auto
  next
    case False
    with kv Cons.IH show ?thesis by (simp add: insert_commute)
  qed
qed

lemma distinct_pushPaper: "distinct (map fst g) \<Longrightarrow> distinct (map fst (pushPaper k p g))"
proof (induction g)
  case Nil
  then show ?case by simp
next
  case (Cons kv g)
  obtain k' ps where kv: "kv = (k', ps)" by (cases kv)
  from Cons kv show ?case
    using keys_pushPaper [of k p g] by (auto simp: image_iff)
qed

lemma count_pushPaper:
  "sum_list (map (\<lambda>kv. length (snd kv)) (pushPaper k p g))
   = Suc (sum_list (map (\<lambda>kv. length (snd kv)) g))"
  by (induction g) auto

lemma mset_pushPaper:
  "mset (concat (map snd (pushPaper k p g))) = add_mset p (mset (concat (map snd g)))"
  by (induction g) auto

lemma members_pushPaper:
  "(k', ps') \<in> set (pushPaper k p g) \<Longrightarrow> q \<in> set ps' \<Longrightarrow>
   (\<exists>ps. (k', ps) \<in> set g \<and> q \<in> set ps) \<or> (k' = k \<and> q = p)"
proof (induction g)
  case Nil
  then show ?case by simp
next
  case (Cons kv g)
  obtain k0 ps0 where kv: "kv = (k0, ps0)" by (cases kv)
  show ?case
  proof (cases "k0 = k")
    case True
    with Cons.prems kv show ?thesis by fastforce
  next
    case False
    with Cons.prems kv have "(k', ps') = (k0, ps0) \<or> (k', ps') \<in> set (pushPaper k p g)"
      by simp
    then show ?thesis
    proof
      assume "(k', ps') = (k0, ps0)"
      with Cons.prems kv show ?thesis by fastforce
    next
      assume "(k', ps') \<in> set (pushPaper k p g)"
      from Cons.IH [OF this Cons.prems(2)] show ?thesis by fastforce
    qed
  qed
qed

lemma fold_push_keys:
  "fst ` set (fold (\<lambda>p g. pushPaper (yearKeyOf p) p g) papers g)
   = fst ` set g \<union> yearKeyOf ` set papers"
  by (induction papers arbitrary: g) (auto simp: keys_pushPaper)

lemma fold_push_distinct:
  "distinct (map fst g) \<Longrightarrow>
   distinct (map fst (fold (\<lambda>p g. pushPaper (yearKeyOf p) p g) papers g))"
  by (induction papers arbitrary: g) (auto simp: distinct_pushPaper)

lemma fold_push_count:
  "sum_list (map (\<lambda>kv. length (snd kv)) (fold (\<lambda>p g. pushPaper (yearKeyOf p) p g) papers g))
   = length papers + sum_list (map (\<lambda>kv. length (snd kv)) g)"
  by (induction papers arbitrary: g) (auto simp: count_pushPaper)

lemma fold_push_mset:
  "mset (concat (map snd (fold (\<lambda>p g. pushPaper (yearKeyOf p) p g) papers g)))
   = mset papers + mset (concat (map snd g))"
  by (induction papers arbitrary: g) (auto simp: mset_pushPaper)

lemma fold_push_members:
  "(k, ps) \<in> set (fold (\<lambda>p g. pushPaper (yearKeyOf p) p g) papers g) \<Longrightarrow> q \<in> set ps \<Longrightarrow>
   (\<exists>ps'. (k, ps') \<in> set g \<and> q \<in> set ps') \<or> (yearKeyOf q = k \<and> q \<in> set papers)"
proof (induction papers arbitrary: g)
  case Nil
  then show ?case by auto
next
  case (Cons p papers)
  from Cons.IH [of "pushPaper (yearKeyOf p) p g"] Cons.prems
  show ?case
    by (auto dest: members_pushPaper)
qed

lemma keys_groupByYear: "fst ` set (groupByYear papers) = yearKeyOf ` set papers"
  by (simp add: groupByYear_def fold_push_keys)

lemma distinct_groupByYear: "distinct (map fst (groupByYear papers))"
  by (simp add: groupByYear_def fold_push_distinct)

lemma members_groupByYear:
  "(k, ps) \<in> set (groupByYear papers) \<Longrightarrow> q \<in> set ps \<Longrightarrow> yearKeyOf q = k \<and> q \<in> set papers"
  using fold_push_members [of k ps papers "[]" q] by (simp add: groupByYear_def)

lemma map_of_pushPaper:
  "map_of (pushPaper k' p g) k =
     (if k = k' then Some ((case map_of g k of None \<Rightarrow> [] | Some ps \<Rightarrow> ps) @ [p])
      else map_of g k)"
  by (induction g) auto

lemma bucket_pushPaper:
  "bucket (pushPaper k' p g) k = (if k = k' then bucket g k @ [p] else bucket g k)"
  by (simp add: bucket_def map_of_pushPaper)

lemma bucket_fold:
  "bucket (fold (\<lambda>p g. pushPaper (yearKeyOf p) p g) papers g) k
   = bucket g k @ filter (\<lambda>p. yearKeyOf p = k) papers"
  by (induction papers arbitrary: g) (auto simp: bucket_pushPaper)

lemma bucket_groupByYear: "bucket (groupByYear papers) k = filter (\<lambda>p. yearKeyOf p = k) papers"
  unfolding groupByYear_def bucket_fold by (simp add: bucket_def)

text \<open>
  Claim C7. Grouping is lossless: the sizes of the buckets add up to the length of the
  list that was grouped, and the buckets together hold exactly the records of that list,
  each as often as the list does.
\<close>

theorem grouping_lossless:
  "sum_list (map (\<lambda>kv. length (snd kv)) (groupByYear papers)) = length papers \<and>
   mset (concat (map snd (groupByYear papers))) = mset papers"
  by (simp add: groupByYear_def fold_push_count fold_push_mset)

text \<open>
  Instance of C7 on the sample list: five records go into the three buckets 2010, 2023 and
  undated, of sizes 1, 2 and 2.
\<close>

theorem grouping_lossless_witness:
  "map (\<lambda>kv. (fst kv, length (snd kv))) (groupByYear sampleList)
     = [(Year 2010, 1), (Year 2023, 2), (Undated, 2)] \<and>
   sum_list (map (\<lambda>kv. length (snd kv)) (groupByYear sampleList)) = 5 \<and>
   length sampleList = 5"
  using grouping_lossless [of sampleList]
  by (simp add: groupByYear_def yearKeyOf_def sampleList_def samplePaper_def)

section \<open>The order of the buckets\<close>

lemma set_objectKeys: "set (objectKeys g) = fst ` set g"
  by (auto simp: objectKeys_def Let_def)

lemma distinct_objectKeys: "distinct (map fst g) \<Longrightarrow> distinct (objectKeys g)"
  by (auto simp: objectKeys_def Let_def)

lemma set_sortedYears: "set (sortedYears g) = fst ` set g"
  by (simp add: sortedYears_def set_sortBy set_objectKeys)

lemma distinct_sortedYears: "distinct (map fst g) \<Longrightarrow> distinct (sortedYears g)"
  by (simp add: sortedYears_def distinct_sortBy distinct_objectKeys)

lemma keyBefore_trans: "keyBefore a b \<Longrightarrow> keyBefore b c \<Longrightarrow> keyBefore a c"
  by (auto simp: keyBefore_def split: yearKey.splits)

lemma compareKeys_le: "a \<noteq> b \<Longrightarrow> compareKeys a b \<le> 0 \<Longrightarrow> keyBefore a b"
  by (auto simp: keyBefore_def compareKeys_def keyNumber_def split: yearKey.splits if_splits)

lemma compareKeys_gt: "a \<noteq> b \<Longrightarrow> \<not> compareKeys a b \<le> 0 \<Longrightarrow> keyBefore b a"
  by (auto simp: keyBefore_def compareKeys_def keyNumber_def split: yearKey.splits if_splits)

lemma sorted_insertBy_keys:
  "x \<notin> set ks \<Longrightarrow> sorted_wrt keyBefore ks \<Longrightarrow> sorted_wrt keyBefore (insertBy compareKeys x ks)"
proof (induction ks)
  case Nil
  then show ?case by simp
next
  case (Cons y ys)
  then have ne: "x \<noteq> y" by auto
  show ?case
  proof (cases "compareKeys x y \<le> 0")
    case True
    then have "keyBefore x y" using ne by (simp add: compareKeys_le)
    with True Cons.prems show ?thesis
      by (auto intro: keyBefore_trans)
  next
    case False
    then have "keyBefore y x" using ne by (simp add: compareKeys_gt)
    with False Cons show ?thesis
      by (auto simp: set_insertBy)
  qed
qed

lemma sorted_sortBy_keys: "distinct ks \<Longrightarrow> sorted_wrt keyBefore (sortBy compareKeys ks)"
proof (induction ks)
  case Nil
  then show ?case by (simp add: sortBy_def)
next
  case (Cons k ks)
  then have "k \<notin> set (sortBy compareKeys ks)" by (simp add: set_sortBy)
  with Cons show ?case
    using sorted_insertBy_keys [of k "sortBy compareKeys ks"] by (simp add: sortBy_def)
qed

lemma renderPublications_sections:
  assumes "papers \<noteq> []"
  shows "renderPublications papers (Some old) =
           Some (map (yearSection (groupByYear (sortBy comparePapers papers)))
                  (sortedYears (groupByYear (sortBy comparePapers papers))))"
proof -
  let ?g = "groupByYear (sortBy comparePapers papers)"
  have "set (sortedYears ?g) = yearKeyOf ` set papers"
    by (simp add: set_sortedYears keys_groupByYear set_sortBy)
  with assms have "sortedYears ?g \<noteq> []" by auto
  then show ?thesis
    by (simp add: renderPublications_def renderGroupedPapers_def Let_def)
qed

lemma digitChar_inj: "a < 10 \<Longrightarrow> b < 10 \<Longrightarrow> digitChar a = digitChar b \<Longrightarrow> a = b"
proof -
  assume a: "a < 10" and b: "b < 10" and e: "digitChar a = digitChar b"
  have d: "distinct ''0123456789''" by simp
  have l: "length ''0123456789'' = 10" by simp
  from nth_eq_iff_index_eq [OF d, of a b] a b e l show ?thesis
    unfolding digitChar_def by metis
qed

lemma digitChar_digit: "d < 10 \<Longrightarrow> digitChar d \<in> set ''0123456789''"
proof -
  assume "d < 10"
  moreover have "length ''0123456789'' = 10" by simp
  ultimately have "d < length ''0123456789''" by metis
  then show ?thesis unfolding digitChar_def by (rule nth_mem)
qed

lemma natDigits_small: "n < 10 \<Longrightarrow> natDigits n = [digitChar n]"
  by (subst natDigits.simps) simp

lemma natDigits_big: "\<not> n < 10 \<Longrightarrow> natDigits n = natDigits (n div 10) @ [digitChar (n mod 10)]"
  by (subst natDigits.simps) simp

lemma natDigits_nonempty: "natDigits n \<noteq> []"
  by (cases "n < 10") (simp_all add: natDigits_small natDigits_big)

lemma natDigits_inj: "natDigits m = natDigits n \<Longrightarrow> m = n"
proof (induction m arbitrary: n rule: natDigits.induct)
  case (1 m)
  show ?case
  proof (cases "m < 10")
    case True
    show ?thesis
    proof (cases "n < 10")
      case n: True
      with True "1.prems" show ?thesis
        by (simp add: natDigits_small digitChar_inj)
    next
      case n: False
      with True "1.prems" natDigits_nonempty [of "n div 10"] show ?thesis
        by (simp add: natDigits_small natDigits_big)
    qed
  next
    case False
    show ?thesis
    proof (cases "n < 10")
      case n: True
      with False "1.prems" natDigits_nonempty [of "m div 10"] show ?thesis
        by (simp add: natDigits_small natDigits_big)
    next
      case n: False
      with False "1.prems"
      have e: "natDigits (m div 10) = natDigits (n div 10)"
        and d: "digitChar (m mod 10) = digitChar (n mod 10)"
        by (simp_all add: natDigits_big)
      from "1.IH" [OF False e] have q: "m div 10 = n div 10" .
      from d have r: "m mod 10 = n mod 10" by (simp add: digitChar_inj)
      from q r show ?thesis by (metis div_mult_mod_eq)
    qed
  qed
qed

lemma natDigits_digits: "set (natDigits n) \<subseteq> set ''0123456789''"
proof (induction n rule: natDigits.induct)
  case (1 n)
  show ?case
  proof (cases "n < 10")
    case True
    then show ?thesis
      using digitChar_digit [of n] by (simp add: natDigits_small)
  next
    case False
    with "1.IH" digitChar_digit [of "n mod 10"] show ?thesis
      by (simp add: natDigits_big)
  qed
qed

lemma numberToString_inj: "numberToString y = numberToString z \<Longrightarrow> y = z"
proof -
  assume e: "numberToString y = numberToString z"
  have minus: "CHR ''-'' \<notin> set (natDigits n)" for n
    using natDigits_digits [of n] by auto
  have clash: "''-'' @ natDigits m \<noteq> natDigits n" for m n
    using minus [of n] by (metis append_Cons list.set_intros(1))
  show ?thesis
  proof (cases "y < 0")
    case True
    show ?thesis
    proof (cases "z < 0")
      case z: True
      with True e have "natDigits (nat (- y)) = natDigits (nat (- z))"
        by (simp add: numberToString_def)
      then have "nat (- y) = nat (- z)" by (rule natDigits_inj)
      with True z show ?thesis by simp
    next
      case z: False
      with True e clash [of "nat (- y)" "nat z"] show ?thesis
        by (simp add: numberToString_def)
    qed
  next
    case False
    show ?thesis
    proof (cases "z < 0")
      case z: True
      with False e clash [of "nat (- z)" "nat y"] show ?thesis
        by (simp add: numberToString_def)
    next
      case z: False
      with False e have "natDigits (nat y) = natDigits (nat z)"
        by (simp add: numberToString_def)
      then have "nat y = nat z" by (rule natDigits_inj)
      with False z show ?thesis by simp
    qed
  qed
qed

lemma numberToString_not_Undated: "numberToString y \<noteq> ''Undated''"
proof
  assume e: "numberToString y = ''Undated''"
  have "CHR ''U'' \<notin> set (natDigits n)" for n
    using natDigits_digits [of n] by auto
  then have "CHR ''U'' \<notin> set (numberToString y)"
    by (simp add: numberToString_def)
  with e show False by simp
qed

lemma yearSection_groupByYear:
  "yearSection (groupByYear xs) k =
     Element ''div'' ''year-group''
       (Element ''h3'' ''year-header''
          [TextNode (case k of Year y \<Rightarrow> numberToString y | Undated \<Rightarrow> ''Undated'')]
        # map createPaperElement (filter (\<lambda>p. yearKeyOf p = k) xs))"
  by (simp add: yearSection_def keyText_def bucket_groupByYear)

text \<open>
  Claim C6. Whatever the order of the records, the keys in the order in which the sections
  are rendered are sorted for \<open>keyBefore\<close>: every key is a numeric year, greater than any
  numeric year after it, unless it is the undated key, which has no key after it; the keys
  are those of the records. The page built from a non-empty list consists of one section
  for each key, in this order: a \<^verbatim>\<open>div\<close> of class \<^verbatim>\<open>year-group\<close> whose first child is
  the header, an \<^verbatim>\<open>h3\<close> of class \<^verbatim>\<open>year-header\<close> with the decimal notation of the year
  or the text \<^verbatim>\<open>Undated\<close>, followed by the elements of the records of that key in sorted
  order. The header determines the key: different years have different notations, and
  none of them reads \<^verbatim>\<open>Undated\<close>. So on the page the headers of the numeric years descend
  and the undated section, when there is one, is the last.
\<close>

theorem bucket_order:
  "sorted_wrt keyBefore (sortedYears (groupByYear papers)) \<and>
   set (sortedYears (groupByYear papers)) = yearKeyOf ` set papers \<and>
   sorted_wrt keyBefore (sortedYears (groupByYear (sortBy comparePapers papers))) \<and>
   set (sortedYears (groupByYear (sortBy comparePapers papers))) = yearKeyOf ` set papers \<and>
   (papers \<noteq> [] \<longrightarrow>
      renderPublications papers (Some old) =
        Some (map (\<lambda>k. Element ''div'' ''year-group''
                          (Element ''h3'' ''year-header''
                             [TextNode (case k of Year y \<Rightarrow> numberToString y
                                        | Undated \<Rightarrow> ''Undated'')]
                           # map createPaperElement
                               (filter (\<lambda>p. yearKeyOf p = k) (sortBy comparePapers papers))))
               (sortedYears (groupByYear (sortBy comparePapers papers))))) \<and>
   (\<forall>y z. numberToString y = numberToString z \<longrightarrow> y = z) \<and>
   (\<forall>y. numberToString y \<noteq> ''Undated'')"
proof -
  have srt: "sorted_wrt keyBefore (sortedYears (groupByYear xs))" for xs
  proof -
    have "distinct (objectKeys (groupByYear xs))"
      by (simp add: distinct_objectKeys distinct_groupByYear)
    then show ?thesis
      unfolding sortedYears_def by (rule sorted_sortBy_keys)
  qed
  have keys: "set (sortedYears (groupByYear xs)) = yearKeyOf ` set xs" for xs
    by (simp add: set_sortedYears keys_groupByYear)
  have keys': "set (sortedYears (groupByYear (sortBy comparePapers papers)))
      = yearKeyOf ` set papers"
    by (simp add: keys set_sortBy)
  have page: "renderPublications papers (Some old) =
        Some (map (\<lambda>k. Element ''div'' ''year-group''
                          (Element ''h3'' ''year-header''
                             [TextNode (case k of Year y \<Rightarrow> numberToString y
                                        | Undated \<Rightarrow> ''Undated'')]
                           # map createPaperElement
                               (filter (\<lambda>p. yearKeyOf p = k) (sortBy comparePapers papers))))
               (sortedYears (groupByYear (sortBy comparePapers papers))))"
    if "papers \<noteq> []"
    using renderPublications_sections [OF that, of old] by (simp add: yearSection_groupByYear)
  from srt [of papers] srt [of "sortBy comparePapers papers"] keys [of papers] keys' page
    numberToString_inj numberToString_not_Undated
  show ?thesis by blast
qed

text \<open>
  Witness for C6: the sample list has its undated records in the middle and at the end and
  its oldest record first. The page has three sections, with the headers 2023, 2010 and
  Undated in this order, each holding the records of its key.
\<close>

theorem bucket_order_witness:
  "sortedYears (groupByYear sampleList) = [Year 2023, Year 2010, Undated] \<and>
   sorted_wrt keyBefore [Year 2023, Year 2010, Undated] \<and>
   sampleList \<noteq> [] \<and>
   renderPublications sampleList (Some []) =
     Some [Element ''div'' ''year-group''
             [Element ''h3'' ''year-header'' [TextNode ''2023''],
              createPaperElement (samplePaper ''c'' (Some 2023) (Some 10)),
              createPaperElement (samplePaper ''b'' (Some 2023) None)],
           Element ''div'' ''year-group''
             [Element ''h3'' ''year-header'' [TextNode ''2010''],
              createPaperElement (samplePaper ''old'' (Some 2010) (Some 5))],
           Element ''div'' ''year-group''
             [Element ''h3'' ''year-header'' [TextNode ''Undated''],
              createPaperElement (samplePaper ''undated'' None (Some 7)),
              createPaperElement (samplePaper ''zero'' (Some 0) None)]]"
proof -
  have g: "groupByYear sampleList =
      [(Year 2010, [samplePaper ''old'' (Some 2010) (Some 5)]),
       (Year 2023, [samplePaper ''b'' (Some 2023) None, samplePaper ''c'' (Some 2023) (Some 10)]),
       (Undated, [samplePaper ''undated'' None (Some 7), samplePaper ''zero'' (Some 0) None])]"
    by (simp add: groupByYear_def yearKeyOf_def sampleList_def samplePaper_def)
  have k: "sortedYears (groupByYear sampleList) = [Year 2023, Year 2010, Undated]"
    unfolding g
    by (simp add: sortedYears_def objectKeys_def isArrayIndex_def keyNumber_def sortBy_def
        compareKeys_def)
  have s: "sortBy comparePapers sampleList
     = [samplePaper ''c'' (Some 2023) (Some 10), samplePaper ''b'' (Some 2023) None,
        samplePaper ''old'' (Some 2010) (Some 5), samplePaper ''undated'' None (Some 7),
        samplePaper ''zero'' (Some 0) None]"
    by (simp add: sortBy_def comparePapers_def numOr_def samplePaper_def sampleList_def)
  have g': "groupByYear (sortBy comparePapers sampleList) =
      [(Year 2023, [samplePaper ''c'' (Some 2023) (Some 10), samplePaper ''b'' (Some 2023) None]),
       (Year 2010, [samplePaper ''old'' (Some 2010) (Some 5)]),
       (Undated, [samplePaper ''undated'' None (Some 7), samplePaper ''zero'' (Some 0) None])]"
    unfolding s by (simp add: groupByYear_def yearKeyOf_def samplePaper_def)
  have k': "sortedYears (groupByYear (sortBy comparePapers sampleList))
      = [Year 2023, Year 2010, Undated]"
    unfolding g'
    by (simp add: sortedYears_def objectKeys_def isArrayIndex_def keyNumber_def sortBy_def
        compareKeys_def)
  have n: "sampleList \<noteq> []" by (simp add: sampleList_def)
  have t: "numberToString 2023 = ''2023''" "numberToString 2010 = ''2010''"
    by (simp_all add: numberToString_def natDigits.simps digitChar_def)
  have f: "filter (\<lambda>p. yearKeyOf p = Year 2023) (sortBy comparePapers sampleList)
             = [samplePaper ''c'' (Some 2023) (Some 10), samplePaper ''b'' (Some 2023) None]"
    "filter (\<lambda>p. yearKeyOf p = Year 2010) (sortBy comparePapers sampleList)
             = [samplePaper ''old'' (Some 2010) (Some 5)]"
    "filter (\<lambda>p. yearKeyOf p = Undated) (sortBy comparePapers sampleList)
             = [samplePaper ''undated'' None (Some 7), samplePaper ''zero'' (Some 0) None]"
    unfolding s by (simp_all add: yearKeyOf_def samplePaper_def)
  show ?thesis
    using bucket_order [of sampleList "[]"] n unfolding k k' by (simp add: t f)
qed

section \<open>The recency filter\<close>

lemma isRecent_key: "isRecent cy p \<Longrightarrow> \<exists>y. yearKeyOf p = Year y \<and> year p = Some y \<and> y \<noteq> 0"
  by (auto simp: isRecent_def yearKeyOf_def split: option.splits)

lemma undated_iff: "yearKeyOf p = Undated \<longleftrightarrow> year p = None \<or> year p = Some 0"
  by (auto simp: yearKeyOf_def split: option.splits)

lemma isRecent_eq:
  assumes "RECENT_YEAR_COUNT \<le> currentYear"
  shows "isRecent currentYear
           = (\<lambda>p. case year p of None \<Rightarrow> False | Some y \<Rightarrow> currentYear - 4 + 1 \<le> y)"
proof (rule ext)
  fix p
  from assms show "isRecent currentYear p
      = (case year p of None \<Rightarrow> False | Some y \<Rightarrow> currentYear - 4 + 1 \<le> y)"
    by (auto simp: isRecent_def cutoffYear_def RECENT_YEAR_COUNT_def split: option.splits)
qed

text \<open>
  Claim C4. The window is 4 years. When the clock shows a year of at least 4 (any date of
  the common era from year 4 on), so that the cutoff is positive, the filter keeps exactly
  the records whose year is present and at least \<open>currentYear - 4 + 1\<close>, in their order.
  In 2024 the cutoff is 2021: of four records of 2021, 2022, 2023 and 2020, whatever their
  other fields, the first three are kept and the page shows the buckets 2023, 2022, 2021.
\<close>

theorem recency_filter:
  assumes "RECENT_YEAR_COUNT \<le> currentYear"
  shows "RECENT_YEAR_COUNT = 4 \<and>
         recentPapers currentYear papers
           = filter (\<lambda>p. case year p of None \<Rightarrow> False | Some y \<Rightarrow> currentYear - 4 + 1 \<le> y)
               papers \<and>
         cutoffYear 2024 = 2021 \<and>
         recentPapers 2024
           [a\<lparr>year := Some 2021\<rparr>, b\<lparr>year := Some 2022\<rparr>, c\<lparr>year := Some 2023\<rparr>,
            d\<lparr>year := Some 2020\<rparr>]
           = [a\<lparr>year := Some 2021\<rparr>, b\<lparr>year := Some 2022\<rparr>, c\<lparr>year := Some 2023\<rparr>] \<and>
         sortedYears (groupByYear (sortBy comparePapers (recentPapers 2024
           [a\<lparr>year := Some 2021\<rparr>, b\<lparr>year := Some 2022\<rparr>, c\<lparr>year := Some 2023\<rparr>,
            d\<lparr>year := Some 2020\<rparr>])))
           = [Year 2023, Year 2022, Year 2021]"
proof -
  have f: "recentPapers currentYear papers
           = filter (\<lambda>p. case year p of None \<Rightarrow> False | Some y \<Rightarrow> currentYear - 4 + 1 \<le> y)
               papers"
    by (simp add: recentPapers_def isRecent_eq [OF assms])
  have r: "recentPapers 2024
           [a\<lparr>year := Some 2021\<rparr>, b\<lparr>year := Some 2022\<rparr>, c\<lparr>year := Some 2023\<rparr>,
            d\<lparr>year := Some 2020\<rparr>]
           = [a\<lparr>year := Some 2021\<rparr>, b\<lparr>year := Some 2022\<rparr>, c\<lparr>year := Some 2023\<rparr>]"
    by (simp add: recentPapers_def isRecent_def cutoffYear_def RECENT_YEAR_COUNT_def)
  have s: "sortBy comparePapers
             [a\<lparr>year := Some 2021\<rparr>, b\<lparr>year := Some 2022\<rparr>, c\<lparr>year := Some 2023\<rparr>]
           = [c\<lparr>year := Some 2023\<rparr>, b\<lparr>year := Some 2022\<rparr>, a\<lparr>year := Some 2021\<rparr>]"
    by (simp add: sortBy_def comparePapers_def numOr_def)
  have g: "groupByYear
             [c\<lparr>year := Some 2023\<rparr>, b\<lparr>year := Some 2022\<rparr>, a\<lparr>year := Some 2021\<rparr>]
           = [(Year 2023, [c\<lparr>year := Some 2023\<rparr>]), (Year 2022, [b\<lparr>year := Some 2022\<rparr>]),
              (Year 2021, [a\<lparr>year := Some 2021\<rparr>])]"
    by (simp add: groupByYear_def yearKeyOf_def)
  have k: "sortedYears
             [(Year 2023, [c\<lparr>year := Some 2023\<rparr>]), (Year 2022, [b\<lparr>year := Some 2022\<rparr>]),
              (Year 2021, [a\<lparr>year := Some 2021\<rparr>])]
           = [Year 2023, Year 2022, Year 2021]"
    by (simp add: sortedYears_def objectKeys_def isArrayIndex_def keyNumber_def sortBy_def
        compareKeys_def)
  have c: "cutoffYear 2024 = 2021"
    by (simp add: cutoffYear_def RECENT_YEAR_COUNT_def)
  show ?thesis
    unfolding r s g k using f c by (simp add: RECENT_YEAR_COUNT_def)
qed

text \<open>
  Witness for C4, in 2024: of the sample list only the two records of 2023 are kept; the
  record of 2010 and the records without a year or with year 0 are not.
\<close>

theorem recency_filter_witness:
  "RECENT_YEAR_COUNT \<le> 2024 \<and>
   recentPapers 2024 sampleList
     = [samplePaper ''b'' (Some 2023) None, samplePaper ''c'' (Some 2023) (Some 10)] \<and>
   filter (\<lambda>p. case year p of None \<Rightarrow> False | Some y \<Rightarrow> 2024 - 4 + 1 \<le> y) sampleList
     = [samplePaper ''b'' (Some 2023) None, samplePaper ''c'' (Some 2023) (Some 10)]"
proof -
  have h: "RECENT_YEAR_COUNT \<le> 2024" by (simp add: RECENT_YEAR_COUNT_def)
  have r: "recentPapers 2024 sampleList
     = [samplePaper ''b'' (Some 2023) None, samplePaper ''c'' (Some 2023) (Some 10)]"
    by (simp add: recentPapers_def isRecent_def cutoffYear_def RECENT_YEAR_COUNT_def
        sampleList_def samplePaper_def)
  from recency_filter [OF h, of sampleList] h r show ?thesis by simp
qed

section \<open>The empty page and the fallback\<close>

lemma markup_differ: "noResultsMarkup \<noteq> errorMarkup"
  by (simp add: noResultsMarkup_def errorMarkup_def)

lemma render_not_error: "renderPublications papers (Some old) \<noteq> renderError (Some old)"
proof (cases "sortedYears (groupByYear (sortBy comparePapers papers))")
  case Nil
  then show ?thesis
    by (simp add: renderPublications_def renderGroupedPapers_def renderError_def markup_differ)
next
  case (Cons k ks)
  then show ?thesis
    by (simp add: renderPublications_def renderGroupedPapers_def renderError_def yearSection_def)
qed




section \<open>No undated bucket after the filter\<close>

text \<open>
  Claim C10. After the recency filter no bucket is undated, for any clock year: the key of
  every bucket, and so of every section that is rendered, is a numeric year, and every
  record in a bucket carries that year, which is not 0. The page that a successful load
  renders is built from these buckets. When the renderer is given an unfiltered list, the
  undated bucket exists exactly when some record has no year or the year 0.
\<close>

theorem no_undated_after_filter:
  "Undated \<notin> fst ` set (groupByYear (sortBy comparePapers (recentPapers currentYear papers))) \<and>
   Undated \<notin> set (sortedYears
                    (groupByYear (sortBy comparePapers (recentPapers currentYear papers)))) \<and>
   (\<forall>k ps p. (k, ps) \<in> set (groupByYear (sortBy comparePapers (recentPapers currentYear papers)))
        \<and> p \<in> set ps \<longrightarrow> (\<exists>y. k = Year y \<and> year p = Some y \<and> y \<noteq> 0)) \<and>
   (fetchPapers net = Some (Inr papers) \<longrightarrow>
      fetchScholarData net currentYear pg =
        Some (renderGroupedPapers
               (groupByYear (sortBy comparePapers (recentPapers currentYear papers))) pg)) \<and>
   (Undated \<in> fst ` set (groupByYear (sortBy comparePapers papers))
      \<longleftrightarrow> (\<exists>p. p \<in> set papers \<and> (year p = None \<or> year p = Some 0)))"
proof -
  let ?rs = "sortBy comparePapers (recentPapers currentYear papers)"
  have rec: "isRecent currentYear p" if "p \<in> set ?rs" for p
    using that by (simp add: set_sortBy recentPapers_def)
  have a: "Undated \<notin> fst ` set (groupByYear ?rs)"
  proof
    assume "Undated \<in> fst ` set (groupByYear ?rs)"
    then obtain p where "p \<in> set ?rs" "yearKeyOf p = Undated"
      unfolding keys_groupByYear by auto
    with rec isRecent_key [of currentYear p] show False by auto
  qed
  then have b: "Undated \<notin> set (sortedYears (groupByYear ?rs))"
    by (simp add: set_sortedYears)
  have c: "\<exists>y. k = Year y \<and> year p = Some y \<and> y \<noteq> 0"
    if "(k, ps) \<in> set (groupByYear ?rs)" "p \<in> set ps" for k ps p
  proof -
    from members_groupByYear [OF that] have "yearKeyOf p = k" "p \<in> set ?rs" by auto
    with rec [of p] isRecent_key [of currentYear p] show ?thesis by auto
  qed
  have d: "fetchScholarData net currentYear pg = Some (renderGroupedPapers (groupByYear ?rs) pg)"
    if "fetchPapers net = Some (Inr papers)"
    using that by (simp add: fetchScholarData_def renderPublications_def)
  have "Undated \<in> yearKeyOf ` set papers
      \<longleftrightarrow> (\<exists>p. p \<in> set papers \<and> (year p = None \<or> year p = Some 0))"
    using undated_iff by (metis (no_types, lifting) image_iff)
  then have e: "Undated \<in> fst ` set (groupByYear (sortBy comparePapers papers))
      \<longleftrightarrow> (\<exists>p. p \<in> set papers \<and> (year p = None \<or> year p = Some 0))"
    by (simp add: keys_groupByYear set_sortBy)
  from a b c d e show ?thesis by blast
qed

text \<open>
  Witness for C10, in 2024: the server holds the sample list, which has a record without
  a year and a record with year 0. The page is rendered from the single bucket 2023;
  grouping the unfiltered list does give an undated bucket.
\<close>

theorem no_undated_after_filter_witness:
  "groupByYear (sortBy comparePapers (recentPapers 2024 sampleList))
     = [(Year 2023, [samplePaper ''c'' (Some 2023) (Some 10), samplePaper ''b'' (Some 2023) None])] \<and>
   fetchPapers (onePageNetwork sampleList) = Some (Inr sampleList) \<and>
   fetchScholarData (onePageNetwork sampleList) 2024 (Some [])
     = Some (renderGroupedPapers
              [(Year 2023, [samplePaper ''c'' (Some 2023) (Some 10),
                            samplePaper ''b'' (Some 2023) None])] (Some [])) \<and>
   Undated \<in> fst ` set (groupByYear (sortBy comparePapers sampleList))"
proof -
  have r: "recentPapers 2024 sampleList
     = [samplePaper ''b'' (Some 2023) None, samplePaper ''c'' (Some 2023) (Some 10)]"
    by (simp add: recentPapers_def isRecent_def cutoffYear_def RECENT_YEAR_COUNT_def
        sampleList_def samplePaper_def)
  have g: "groupByYear (sortBy comparePapers (recentPapers 2024 sampleList))
     = [(Year 2023, [samplePaper ''c'' (Some 2023) (Some 10), samplePaper ''b'' (Some 2023) None])]"
    unfolding r
    by (simp add: sortBy_def comparePapers_def numOr_def groupByYear_def yearKeyOf_def
        samplePaper_def)
  have p: "fetchPapers (onePageNetwork sampleList) = Some (Inr sampleList)"
    by (simp add: fetchPapers_def onePageNetwork_def ok_def arrOr_def truthyCursor_def)
  have m: "samplePaper ''undated'' None (Some 7) \<in> set sampleList"
    by (simp add: sampleList_def)
  have y: "year (samplePaper ''undated'' None (Some 7)) = None"
    by (simp add: samplePaper_def)
  from no_undated_after_filter [of 2024 sampleList "onePageNetwork sampleList" "Some []"]
    p m y show ?thesis
    unfolding g by blast
qed

section \<open>Pagination\<close>

lemma fetchLoop_fail:
  "truthyCursor (Some c) \<Longrightarrow> requestFails (net n (offsetUrl c)) \<Longrightarrow>
   fetchLoop net n (Some c) allPapers = Some allPapers"
  by (subst fetchLoop.simps)
     (auto simp: requestFails_def responseRejected_def split: response.splits body.splits)

lemma fetchLoop_page:
  "truthyCursor (Some c) \<Longrightarrow> net n (offsetUrl c) = Response status (Json d) \<Longrightarrow> ok status \<Longrightarrow>
   fetchLoop net n (Some c) allPapers =
     fetchLoop net (Suc n) (if truthyCursor (nxt d) then nxt d else None)
       (allPapers @ arrOr (data d) [])"
  by (subst fetchLoop.simps) simp

lemma pagination_truthy:
  "pagination net n c ps n' c' \<Longrightarrow> truthyCursor (Some c') \<Longrightarrow> truthyCursor (Some c)"
  by (induction rule: pagination.induct) auto

lemma fetchLoop_pagination:
  "pagination net n c ps n' c' \<Longrightarrow> truthyCursor (Some c') \<Longrightarrow>
   requestFails (net n' (offsetUrl c')) \<Longrightarrow>
   fetchLoop net n (Some c) allPapers = Some (allPapers @ ps)"
proof (induction arbitrary: allPapers rule: pagination.induct)
  case (start n c)
  then show ?case by (simp add: fetchLoop_fail)
next
  case (page c n status d c' ps n' c'')
  have t: "truthyCursor (Some c')"
    using page.hyps(5) page.prems(1) by (rule pagination_truthy)
  have "fetchLoop net n (Some c) allPapers =
          fetchLoop net (Suc n) (Some c') (allPapers @ arrOr (data d) [])"
    using fetchLoop_page [of c net n status d allPapers] page.hyps(1,2,3,4) t by simp
  also have "\<dots> = Some ((allPapers @ arrOr (data d) []) @ ps)"
    using page.IH [OF page.prems] .
  finally show ?case by simp
qed

text \<open>
  Claim C3. The first request succeeded and named a cursor; some follow-up requests, maybe
  none, were answered with pages, and then a follow-up request fails: no response, a
  status outside 200-299 or an unreadable body. Then the loop ends and returns the records
  of the pages that did arrive, the fetch yields the records of the first page followed by
  these, and the page load renders them: no error is raised and the fallback is not shown.
\<close>

theorem pagination_failure_keeps_partial:
  assumes "net 0 papersUrl = Response status (Json first)" and "ok status"
    and "nxt first = Some c"
    and "pagination net 1 c ps n c'"
    and "truthyCursor (Some c')"
    and "requestFails (net n (offsetUrl c'))"
  shows "fetchRemainingPapers net 1 (Some c) = Some ps \<and>
         fetchPapers net = Some (Inr (arrOr (data first) [] @ ps)) \<and>
         fetchScholarData net currentYear (Some old) =
           Some (renderPublications (recentPapers currentYear (arrOr (data first) [] @ ps))
                  (Some old)) \<and>
         fetchScholarData net currentYear (Some old) \<noteq> Some (renderError (Some old))"
proof -
  have t: "truthyCursor (Some c)"
    using assms(4,5) by (rule pagination_truthy)
  have r: "fetchRemainingPapers net 1 (Some c) = Some ps"
    using fetchLoop_pagination [OF assms(4,5,6), of "[]"] by (simp add: fetchRemainingPapers_def)
  have p: "fetchPapers net = Some (Inr (arrOr (data first) [] @ ps))"
    using assms(1,2,3) t r by (simp add: fetchPapers_def Let_def)
  have s: "fetchScholarData net currentYear (Some old) =
           Some (renderPublications (recentPapers currentYear (arrOr (data first) [] @ ps))
                  (Some old))"
    using p by (simp add: fetchScholarData_def)
  from r p s render_not_error show ?thesis by simp
qed

text \<open>
  Witness for C3: the first page holds two records and the cursor \<^verbatim>\<open>X\<close>, and the request
  for the second page fails, by a network failure, by status 503 or by an unreadable body.
  Each time the fetch yields exactly the two records, and the fallback is not shown. On
  the server with three pages the request for the third page is answered with status 500,
  and the fetch yields the three records of the first two pages.
\<close>

theorem pagination_failure_keeps_partial_witness:
  "twoPageNetwork NetworkFailure 0 papersUrl
     = Response 200
         (Json \<lparr>data = Some [samplePaper ''A'' (Some 2024) (Some 3),
                              samplePaper ''B'' (Some 2023) None],
                nxt = Some (Token ''X'')\<rparr>) \<and>
   ok 200 \<and>
   pagination (twoPageNetwork NetworkFailure) 1 (Token ''X'') [] 1 (Token ''X'') \<and>
   truthyCursor (Some (Token ''X'')) \<and>
   requestFails (twoPageNetwork NetworkFailure 1 (offsetUrl (Token ''X''))) \<and>
   requestFails (twoPageNetwork (Response 503 Malformed) 1 (offsetUrl (Token ''X''))) \<and>
   requestFails (twoPageNetwork (Response 200 Malformed) 1 (offsetUrl (Token ''X''))) \<and>
   fetchPapers (twoPageNetwork NetworkFailure)
     = Some (Inr [samplePaper ''A'' (Some 2024) (Some 3), samplePaper ''B'' (Some 2023) None]) \<and>
   fetchPapers (twoPageNetwork (Response 503 Malformed))
     = Some (Inr [samplePaper ''A'' (Some 2024) (Some 3), samplePaper ''B'' (Some 2023) None]) \<and>
   fetchPapers (twoPageNetwork (Response 200 Malformed))
     = Some (Inr [samplePaper ''A'' (Some 2024) (Some 3), samplePaper ''B'' (Some 2023) None]) \<and>
   fetchScholarData (twoPageNetwork NetworkFailure) 2024 (Some [])
     \<noteq> Some (renderError (Some [])) \<and>
   pagination (threePageNetwork (Response 500 Malformed)) 1 (Offset 500)
     [samplePaper ''C'' (Some 2022) (Some 1)] 2 (Offset 1000) \<and>
   requestFails (threePageNetwork (Response 500 Malformed) 2 (offsetUrl (Offset 1000))) \<and>
   fetchPapers (threePageNetwork (Response 500 Malformed))
     = Some (Inr [samplePaper ''A'' (Some 2024) (Some 3), samplePaper ''B'' (Some 2023) None,
                  samplePaper ''C'' (Some 2022) (Some 1)])"
proof -
  let ?net = "threePageNetwork (Response 500 Malformed)"
  let ?page1 = "\<lparr>data = Some [samplePaper ''A'' (Some 2024) (Some 3),
                              samplePaper ''B'' (Some 2023) None],
                nxt = Some (Offset 500)\<rparr>"
  let ?page2 = "\<lparr>data = Some [samplePaper ''C'' (Some 2022) (Some 1)],
                nxt = Some (Offset 1000)\<rparr>"
  have n1: "?net 0 papersUrl = Response 200 (Json ?page1)"
    by (simp add: threePageNetwork_def)
  have n2: "?net 1 (offsetUrl (Offset 500)) = Response 200 (Json ?page2)"
    by (simp add: threePageNetwork_def)
  have n3: "?net 2 (offsetUrl (Offset 1000)) = Response 500 Malformed"
    by (simp add: threePageNetwork_def)
  have t1: "truthyCursor (Some (Offset 500))" by (simp add: truthyCursor_def)
  have t2: "truthyCursor (Some (Offset 1000))" by (simp add: truthyCursor_def)
  have tail: "pagination ?net (Suc 1) (Offset 1000) [] 2 (Offset 1000)"
    unfolding Suc_1 by (rule pagination.start)
  have "pagination ?net 1 (Offset 500) (arrOr (data ?page2) [] @ []) 2 (Offset 1000)"
  proof (rule pagination.page)
    show "truthyCursor (Some (Offset 500))" by (rule t1)
    show "?net 1 (offsetUrl (Offset 500)) = Response 200 (Json ?page2)" by (rule n2)
    show "ok 200" by (simp add: ok_def)
    show "nxt ?page2 = Some (Offset 1000)" by simp
    show "pagination ?net (Suc 1) (Offset 1000) [] 2 (Offset 1000)" by (rule tail)
  qed
  then have pag3: "pagination ?net 1 (Offset 500) [samplePaper ''C'' (Some 2022) (Some 1)]
      2 (Offset 1000)"
    by (simp add: arrOr_def)
  have f4: "requestFails (?net 2 (offsetUrl (Offset 1000)))"
    unfolding n3 by (simp add: requestFails_def responseRejected_def ok_def)
  let ?first = "\<lparr>data = Some [samplePaper ''A'' (Some 2024) (Some 3),
                              samplePaper ''B'' (Some 2023) None],
                nxt = Some (Token ''X'')\<rparr>"
  have one: "twoPageNetwork r 0 papersUrl = Response 200 (Json ?first)" for r
    by (simp add: twoPageNetwork_def)
  have okay: "ok 200" by (simp add: ok_def)
  have cur: "nxt ?first = Some (Token ''X'')" by simp
  have pag: "pagination (twoPageNetwork r) 1 (Token ''X'') [] 1 (Token ''X'')" for r
    by (rule pagination.start)
  have tr: "truthyCursor (Some (Token ''X''))" by (simp add: truthyCursor_def)
  have two: "twoPageNetwork r 1 (offsetUrl (Token ''X'')) = r" for r
    by (simp add: twoPageNetwork_def)
  have f1: "requestFails (twoPageNetwork NetworkFailure 1 (offsetUrl (Token ''X'')))"
    unfolding two by (simp add: requestFails_def)
  have f2: "requestFails (twoPageNetwork (Response 503 Malformed) 1 (offsetUrl (Token ''X'')))"
    unfolding two by (simp add: requestFails_def responseRejected_def ok_def)
  have f3: "requestFails (twoPageNetwork (Response 200 Malformed) 1 (offsetUrl (Token ''X'')))"
    unfolding two by (simp add: requestFails_def responseRejected_def ok_def)
  note r1 = pagination_failure_keeps_partial [OF one okay cur pag tr f1, of 2024 "[]"]
  note r2 = pagination_failure_keeps_partial [OF one okay cur pag tr f2, of 2024 "[]"]
  note r3 = pagination_failure_keeps_partial [OF one okay cur pag tr f3, of 2024 "[]"]
  note r4 = pagination_failure_keeps_partial [OF n1 okay _ pag3 t2 f4, of 2024 "[]"]
  from r1 r2 r3 r4 one okay pag tr f1 f2 f3 pag3 f4 show ?thesis
    by (simp add: arrOr_def render_not_error)
qed

section \<open>The failure of the whole operation\<close>

text \<open>
  Claim C2, as the code has it. The fetch raises an error exactly when the first request
  gets no response (a network failure), or a response with a status outside 200-299, or
  one whose body cannot be read. On that failure the page load replaces the content of the
  publications container by the fallback, which holds the link to the Google Scholar
  profile.
\<close>

theorem request_error:
  "((\<exists>e. fetchPapers net = Some (Inl e)) \<longleftrightarrow>
      net 0 papersUrl = NetworkFailure \<or> responseRejected (net 0 papersUrl)) \<and>
   ((\<exists>e. fetchPapers net = Some (Inl e)) \<longrightarrow>
      fetchScholarData net currentYear (Some old) = Some (Some [Markup errorMarkup])) \<and>
   hasSubstring (''<a href=\"'' @ GOOGLE_SCHOLAR_URL @ ''\"'') errorMarkup"
proof -
  have a: "(\<exists>e. fetchPapers net = Some (Inl e)) \<longleftrightarrow>
      net 0 papersUrl = NetworkFailure \<or> responseRejected (net 0 papersUrl)"
    by (auto simp: fetchPapers_def responseRejected_def Let_def
        split: response.splits body.splits option.splits)
  have b: "fetchScholarData net currentYear (Some old) = Some (Some [Markup errorMarkup])"
    if "\<exists>e. fetchPapers net = Some (Inl e)"
    using that by (auto simp: fetchScholarData_def renderError_def)
  have c: "hasSubstring (''<a href=\"'' @ GOOGLE_SCHOLAR_URL @ ''\"'') errorMarkup"
    by (simp add: errorMarkup_def GOOGLE_SCHOLAR_URL_def)
  from a b c show ?thesis by blast
qed

text \<open>
  Witness for C2: every request is answered with status 404. The response is rejected, the
  fetch raises the error of line 30, and the container holds the fallback.
\<close>

theorem request_error_witness:
  "responseRejected (constNetwork (Response 404 Malformed) 0 papersUrl) \<and>
   fetchPapers (constNetwork (Response 404 Malformed)) = Some (Inl (ApiError 404)) \<and>
   fetchScholarData (constNetwork (Response 404 Malformed)) 2024 (Some [])
     = Some (Some [Markup errorMarkup])"
proof -
  have r: "responseRejected (constNetwork (Response 404 Malformed) 0 papersUrl)"
    by (simp add: responseRejected_def constNetwork_def ok_def)
  have f: "fetchPapers (constNetwork (Response 404 Malformed)) = Some (Inl (ApiError 404))"
    by (simp add: fetchPapers_def constNetwork_def ok_def)
  from request_error [of "constNetwork (Response 404 Malformed)" 2024 "[]"] r f
  show ?thesis by blast
qed

text \<open>
  The claim C2 as stated fails when the first request gets no response at all: the fetch
  raises an error although there is neither a status outside 200-299 nor an unreadable
  body.
\<close>

theorem request_error_counterexample:
  "fetchPapers (constNetwork NetworkFailure) = Some (Inl FetchRejected) \<and>
   \<not> responseRejected (constNetwork NetworkFailure 0 papersUrl) \<and>
   fetchScholarData (constNetwork NetworkFailure) 2024 (Some []) = Some (renderError (Some []))"
  by (simp add: fetchPapers_def fetchScholarData_def constNetwork_def responseRejected_def)

section \<open>The markup of one publication\<close>

lemma escapeChar_no_tag: "CHR ''<'' \<notin> set (escapeChar c) \<and> CHR ''>'' \<notin> set (escapeChar c)"
  by (simp add: escapeChar_def)

lemma escapeHtml_no_tag: "CHR ''<'' \<notin> set (escapeHtml s) \<and> CHR ''>'' \<notin> set (escapeHtml s)"
  using escapeChar_no_tag by (induction s) (auto simp: escapeHtml_def)





text \<open>
  Claim C1. The three text fields are escaped: neither the title nor the venue as inserted
  contains an angle bracket, and an author is inserted as the escaped name, with or without
  the \<^verbatim>\<open>strong\<close> element around it. The url is not: for the record below, whose url
  closes the attribute and the tag and then opens an \<^verbatim>\<open>img\<close> element with an
  \<^verbatim>\<open>onerror\<close> handler, the markup assigned to \<^verbatim>\<open>innerHTML\<close> holds that element as
  markup, next to the title that was escaped.
\<close>

theorem url_markup_injection:
  "CHR ''<'' \<notin> set (paperTitle p) \<and> CHR ''>'' \<notin> set (paperTitle p) \<and>
   CHR ''<'' \<notin> set (paperVenue p) \<and> CHR ''>'' \<notin> set (paperVenue p) \<and>
   (\<exists>nm. CHR ''<'' \<notin> set nm \<and> CHR ''>'' \<notin> set nm \<and>
         (formatAuthor a = nm \<or> formatAuthor a = ''<strong>'' @ nm @ ''</strong>'')) \<and>
   createPaperElement
     \<lparr>title = Some ''<script>x</script>'', year = Some 2024, venue = None,
      citationCount = None, url = Some ''\"><img src=x onerror=alert(1)>'', authors = None\<rparr>
   = Element ''div'' ''publication-item''
       [Markup ''\<newline>        <div class=\"pub-main\">\<newline>            <a href=\"\"><img src=x onerror=alert(1)>\" class=\"pub-title\" target=\"_blank\" rel=\"noopener\">&lt;script&gt;x&lt;/script&gt;</a>\<newline>            \<newline>            \<newline>        </div>\<newline>    '']"
proof -
  have t: "CHR ''<'' \<notin> set (paperTitle p) \<and> CHR ''>'' \<notin> set (paperTitle p)"
    unfolding paperTitle_def by (rule escapeHtml_no_tag)
  have v: "CHR ''<'' \<notin> set (paperVenue p) \<and> CHR ''>'' \<notin> set (paperVenue p)"
    unfolding paperVenue_def by (rule escapeHtml_no_tag)
  have "formatAuthor a = escapeHtml (strOr (name a) [])
      \<or> formatAuthor a = ''<strong>'' @ escapeHtml (strOr (name a) []) @ ''</strong>''"
    by (simp add: formatAuthor_def Let_def)
  with escapeHtml_no_tag [of "strOr (name a) []"]
  have n: "\<exists>nm. CHR ''<'' \<notin> set nm \<and> CHR ''>'' \<notin> set nm \<and>
         (formatAuthor a = nm \<or> formatAuthor a = ''<strong>'' @ nm @ ''</strong>'')"
    by blast
  have e: "createPaperElement
     \<lparr>title = Some ''<script>x</script>'', year = Some 2024, venue = None,
      citationCount = None, url = Some ''\"><img src=x onerror=alert(1)>'', authors = None\<rparr>
   = Element ''div'' ''publication-item''
       [Markup ''\<newline>        <div class=\"pub-main\">\<newline>            <a href=\"\"><img src=x onerror=alert(1)>\" class=\"pub-title\" target=\"_blank\" rel=\"noopener\">&lt;script&gt;x&lt;/script&gt;</a>\<newline>            \<newline>            \<newline>        </div>\<newline>    '']"
    by (simp add: createPaperElement_def paperMarkup_def paperUrl_def paperTitle_def
        paperAuthors_def paperVenue_def strOr_def arrOr_def escapeHtml_def escapeChar_def)
  from t v n e show ?thesis by blast
qed

end
